theory Spec2Isabelle
  imports Complex_Main "HOL-Library.Sublist"
begin

section \<open>NumPy arrays\<close>

text \<open>
  The module \<^verbatim>\<open>a5utils.py\<close> works on NumPy arrays. A one-dimensional array is a list,
  a two-dimensional float array of shape \<open>H\<times>W\<close> is the list of its \<open>H\<close> rows. Floats are
  modelled by the reals (exact arithmetic, no NaN, no infinity, no rounding) and the
  integers of \<^verbatim>\<open>astype(int)\<close> by \<open>int\<close> (no 64-bit overflow).

  The exceptions NumPy raises are values: a fancy index that is out of bounds or whose
  index arrays do not broadcast raises \<^verbatim>\<open>IndexError\<close>, an arithmetic operation whose
  operands do not broadcast raises \<^verbatim>\<open>ValueError\<close>.
\<close>

datatype error = IndexError | ValueError

type_synonym image = "real list list"

definition shape0 :: "image \<Rightarrow> nat" where
  "shape0 img = length img"

definition shape1 :: "image \<Rightarrow> nat" where
  "shape1 img = (case img of [] \<Rightarrow> 0 | row # _ \<Rightarrow> length row)"

definition and_then :: "error + 'a \<Rightarrow> ('a \<Rightarrow> error + 'b) \<Rightarrow> error + 'b" where
  "and_then r f = (case r of Inl e \<Rightarrow> Inl e | Inr v \<Rightarrow> f v)"

text \<open>
  Broadcasting of two one-dimensional arrays: equal lengths pair up elementwise, an array
  of length one is stretched to the length of the other, anything else does not broadcast.
\<close>

definition broadcast :: "'a list \<Rightarrow> 'b list \<Rightarrow> ('a \<times> 'b) list option" where
  "broadcast a b =
     (if length a = length b then Some (zip a b)
      else if length a = 1 then Some (map (\<lambda>v. (hd a, v)) b)
      else if length b = 1 then Some (map (\<lambda>u. (u, hd b)) a)
      else None)"

definition ufunc :: "('a \<Rightarrow> 'b \<Rightarrow> 'c) \<Rightarrow> 'a list \<Rightarrow> 'b list \<Rightarrow> error + 'c list" where
  "ufunc f a b =
     (case broadcast a b of
        None \<Rightarrow> Inl ValueError
      | Some ps \<Rightarrow> Inr (map (\<lambda>(u, v). f u v) ps))"

text \<open>\<^verbatim>\<open>np.floor(x).astype(int)\<close>, \<^verbatim>\<open>a + 1\<close> and \<^verbatim>\<open>np.clip(a, lo, hi)\<close>, the latter
  being \<^verbatim>\<open>minimum(maximum(a, lo), hi)\<close>.\<close>

definition floor_int :: "real list \<Rightarrow> int list" where
  "floor_int x = map (\<lambda>v. \<lfloor>v\<rfloor>) x"

definition add_scalar :: "int list \<Rightarrow> int \<Rightarrow> int list" where
  "add_scalar a k = map (\<lambda>v. v + k) a"

definition np_clip :: "int list \<Rightarrow> int \<Rightarrow> int \<Rightarrow> int list" where
  "np_clip a lo hi = map (\<lambda>v. min (max v lo) hi) a"

text \<open>The arithmetic of the sampler: integer array minus float array, float array minus
  integer array, and products and sums of float arrays.\<close>

definition sub_if :: "int list \<Rightarrow> real list \<Rightarrow> error + real list" where
  "sub_if a b = ufunc (\<lambda>u v. real_of_int u - v) a b"

definition sub_fi :: "real list \<Rightarrow> int list \<Rightarrow> error + real list" where
  "sub_fi a b = ufunc (\<lambda>u v. u - real_of_int v) a b"

definition mul :: "real list \<Rightarrow> real list \<Rightarrow> error + real list" where
  "mul a b = ufunc (\<lambda>u v. u * v) a b"

definition add :: "real list \<Rightarrow> real list \<Rightarrow> error + real list" where
  "add a b = ufunc (\<lambda>u v. u + v) a b"

text \<open>
  An index \<open>i\<close> into an axis of size \<open>n\<close> is valid for \<open>-n \<le> i < n\<close>, and a negative one
  counts from the end. \<^verbatim>\<open>image[rows, cols]\<close> with two integer arrays broadcasts them and
  looks up one cell per pair.
\<close>

definition axis_index :: "nat \<Rightarrow> int \<Rightarrow> nat option" where
  "axis_index n i =
     (if - int n \<le> i \<and> i < int n then Some (nat (if i < 0 then i + int n else i))
      else None)"

definition cell :: "image \<Rightarrow> int \<times> int \<Rightarrow> real option" where
  "cell img p =
     (case axis_index (shape0 img) (fst p) of
        None \<Rightarrow> None
      | Some r \<Rightarrow>
          (case axis_index (shape1 img) (snd p) of
             None \<Rightarrow> None
           | Some c \<Rightarrow> Some (img ! r ! c)))"

definition getitem :: "image \<Rightarrow> int list \<Rightarrow> int list \<Rightarrow> error + real list" where
  "getitem img rows cols =
     (case broadcast rows cols of
        None \<Rightarrow> Inl IndexError
      | Some ps \<Rightarrow>
          (case those (map (cell img) ps) of
             None \<Rightarrow> Inl IndexError
           | Some vs \<Rightarrow> Inr vs))"

section \<open>The bilinear sampler\<close>

text \<open>
  \<^verbatim>\<open>bilinear_interpolate(image, x, y)\<close>, statement by statement. The names \<open>x0\<close>, \<open>x1\<close>,
  \<open>y0\<close>, \<open>y1\<close> are rebound to the clipped indices before the neighbours are read and
  before the weights are computed, as in the source. The last line,
  \<^verbatim>\<open>Ia*wa + Ib*wb + Ic*wc + Id*wd\<close>, is evaluated left to right: each product just before
  the sum that needs it.
\<close>

definition weight :: "error + real list \<Rightarrow> error + real list \<Rightarrow> error + real list" where
  "weight a b = and_then a (\<lambda>u. and_then b (\<lambda>v. mul u v))"

definition bilinear_interpolate :: "image \<Rightarrow> real list \<Rightarrow> real list \<Rightarrow> error + real list" where
  "bilinear_interpolate img x y =
     (let x0 = floor_int x;
          x1 = add_scalar x0 1;
          y0 = floor_int y;
          y1 = add_scalar y0 1;
          x0 = np_clip x0 0 (int (shape1 img) - 1);
          x1 = np_clip x1 0 (int (shape1 img) - 1);
          y0 = np_clip y0 0 (int (shape0 img) - 1);
          y1 = np_clip y1 0 (int (shape0 img) - 1)
      in
        and_then (getitem img y0 x0) (\<lambda>Ia.
        and_then (getitem img y1 x0) (\<lambda>Ib.
        and_then (getitem img y0 x1) (\<lambda>Ic.
        and_then (getitem img y1 x1) (\<lambda>Id.
        and_then (weight (sub_if x1 x) (sub_if y1 y)) (\<lambda>wa.
        and_then (weight (sub_if x1 x) (sub_fi y y0)) (\<lambda>wb.
        and_then (weight (sub_fi x x0) (sub_if y1 y)) (\<lambda>wc.
        and_then (weight (sub_fi x x0) (sub_fi y y0)) (\<lambda>wd.
        and_then (mul Ia wa) (\<lambda>ta.
        and_then (mul Ib wb) (\<lambda>tb.
        and_then (add ta tb) (\<lambda>s1.
        and_then (mul Ic wc) (\<lambda>tc.
        and_then (add s1 tc) (\<lambda>s2.
        and_then (mul Id wd) (\<lambda>td.
        add s2 td)))))))))))))))"

text \<open>
  One query point, in closed form: what the vectorised code computes at each position of
  the batch (lemma \<open>bilinear_interpolate_points\<close> below). \<open>clip1\<close> is \<open>np_clip\<close> on one
  element.
\<close>

definition clip1 :: "int \<Rightarrow> int \<Rightarrow> int \<Rightarrow> int" where
  "clip1 v lo hi = min (max v lo) hi"

definition point :: "image \<Rightarrow> real \<Rightarrow> real \<Rightarrow> real" where
  "point img x y =
     (let x0 = clip1 \<lfloor>x\<rfloor> 0 (int (shape1 img) - 1);
          x1 = clip1 (\<lfloor>x\<rfloor> + 1) 0 (int (shape1 img) - 1);
          y0 = clip1 \<lfloor>y\<rfloor> 0 (int (shape0 img) - 1);
          y1 = clip1 (\<lfloor>y\<rfloor> + 1) 0 (int (shape0 img) - 1)
      in img ! nat y0 ! nat x0 * ((real_of_int x1 - x) * (real_of_int y1 - y))
       + img ! nat y1 ! nat x0 * ((real_of_int x1 - x) * (y - real_of_int y0))
       + img ! nat y0 ! nat x1 * ((x - real_of_int x0) * (real_of_int y1 - y))
       + img ! nat y1 ! nat x1 * ((x - real_of_int x0) * (y - real_of_int y0)))"

subsection \<open>The sampler of the specification\<close>

text \<open>
  The algorithm as the specification words it (section 4.1, steps 1 to 5), kept apart from
  the code above so that the two can be compared: the four corners are read at the clamped
  indices, the four weights are formed from the integers of step 1, before clamping.
\<close>

definition spec_sample_point :: "image \<Rightarrow> real \<Rightarrow> real \<Rightarrow> real" where
  "spec_sample_point field x y =
     (let x0 = \<lfloor>x\<rfloor>; x1 = x0 + 1; y0 = \<lfloor>y\<rfloor>; y1 = y0 + 1;
          cx0 = clip1 x0 0 (int (shape1 field) - 1);
          cx1 = clip1 x1 0 (int (shape1 field) - 1);
          cy0 = clip1 y0 0 (int (shape0 field) - 1);
          cy1 = clip1 y1 0 (int (shape0 field) - 1);
          Ia = field ! nat cy0 ! nat cx0;
          Ib = field ! nat cy1 ! nat cx0;
          Ic = field ! nat cy0 ! nat cx1;
          Id = field ! nat cy1 ! nat cx1;
          wa = (real_of_int x1 - x) * (real_of_int y1 - y);
          wb = (real_of_int x1 - x) * (y - real_of_int y0);
          wc = (x - real_of_int x0) * (real_of_int y1 - y);
          wd = (x - real_of_int x0) * (y - real_of_int y0)
      in Ia * wa + Ib * wb + Ic * wc + Id * wd)"

definition spec_sample :: "image \<Rightarrow> real list \<Rightarrow> real list \<Rightarrow> real list" where
  "spec_sample field xs ys = map2 (spec_sample_point field) xs ys"

section \<open>The point picker\<close>

text \<open>
  \<^verbatim>\<open>SelectPoints\<close> holds the clicked coordinates and talks to two collaborators of the
  plotting library: the line \<^verbatim>\<open>self.pts\<close> (its data and the axes it lives on) and the
  canvas, which calls the registered handler on every button press until
  \<^verbatim>\<open>mpl_disconnect\<close> removes it. The state carries what the handler reads and writes:
  the fields of the object, the line's data, the labels put on the axes, the number of
  redraws, and whether the callback \<^verbatim>\<open>cid\<close> is still registered with the canvas.
  An axes object is identified by a number; \<^verbatim>\<open>event.inaxes\<close> is \<open>None\<close> for a click
  outside every axes. A label \<^verbatim>\<open>'%s' % len(self.xs)\<close> is kept as the number it prints.
\<close>

record event =
  inaxes :: "nat option"
  xdata :: real
  ydata :: real

record select_points =
  ax :: nat
  pts_axes :: nat
  pts_data :: "real list \<times> real list"
  npoints :: int
  xs :: "real list"
  ys :: "real list"
  connected :: bool
  toffset :: real
  texts :: "(real \<times> real \<times> nat) list"
  draws :: nat

text \<open>\<^verbatim>\<open>__init__(self, ax, npoints)\<close>; \<open>vx0\<close> and \<open>vx1\<close> are \<^verbatim>\<open>ax.viewLim.x0\<close> and
  \<^verbatim>\<open>ax.viewLim.x1\<close>.\<close>

definition init :: "nat \<Rightarrow> real \<Rightarrow> real \<Rightarrow> int \<Rightarrow> select_points" where
  "init a vx0 vx1 n =
     \<lparr>ax = a, pts_axes = a, pts_data = ([0], [0]), npoints = n, xs = [], ys = [],
      connected = True, toffset = 0.05 * (vx1 - vx0), texts = [], draws = 0\<rparr>"

text \<open>\<^verbatim>\<open>__call__(self, event)\<close>.\<close>

definition call :: "select_points \<Rightarrow> event \<Rightarrow> select_points" where
  "call self ev =
     (if inaxes ev \<noteq> Some (pts_axes self) then self
      else
        let self = self\<lparr>xs := xs self @ [xdata ev]\<rparr>;
            self = self\<lparr>ys := ys self @ [ydata ev]\<rparr>;
            self = self\<lparr>pts_data := (xs self, ys self)\<rparr>;
            self = self\<lparr>texts := texts self @ [(xdata ev + toffset self, ydata ev, length (xs self))]\<rparr>;
            self = self\<lparr>draws := draws self + 1\<rparr>
        in if npoints self \<le> int (length (xs self)) then self\<lparr>connected := False\<rparr> else self)"

text \<open>The canvas: a button press reaches the handler only while it is registered. A run
  delivers a sequence of events, one after the other.\<close>

definition deliver :: "select_points \<Rightarrow> event \<Rightarrow> select_points" where
  "deliver self ev = (if connected self then call self ev else self)"

definition run :: "select_points \<Rightarrow> event list \<Rightarrow> select_points" where
  "run self evs = foldl deliver self evs"

section \<open>The sampler on a store of arrays\<close>

text \<open>
  To speak about what the sampler does to its arguments, the same statements are read once
  more on a store of array objects. A reference is the position of an object in the store,
  one table per kind of array (the two-dimensional float arrays, the float arrays and the
  integer arrays). Every NumPy call of the source reads its operands from the store and
  allocates its result as a new object; an assignment \<^verbatim>\<open>x0 = ...\<close> rebinds the local
  name \<open>x0\<close> to the new reference and writes to no object. An action returns the store it
  leaves behind together with an exception or a value.
\<close>

record store =
  grids :: "image list"
  floats :: "real list list"
  ints :: "int list list"

type_synonym 'a action = "store \<Rightarrow> store \<times> (error + 'a)"

definition st_bind :: "'a action \<Rightarrow> ('a \<Rightarrow> 'b action) \<Rightarrow> 'b action" where
  "st_bind m f s = (case m s of (s', Inl e) \<Rightarrow> (s', Inl e) | (s', Inr v) \<Rightarrow> f v s')"

definition new_ints :: "int list \<Rightarrow> nat action" where
  "new_ints v s = (s\<lparr>ints := ints s @ [v]\<rparr>, Inr (length (ints s)))"

definition new_floats :: "error + real list \<Rightarrow> nat action" where
  "new_floats r s =
     (case r of
        Inl e \<Rightarrow> (s, Inl e)
      | Inr v \<Rightarrow> (s\<lparr>floats := floats s @ [v]\<rparr>, Inr (length (floats s))))"

text \<open>The calls of the sampler, each allocating its result: \<^verbatim>\<open>np.floor(x).astype(int)\<close>,
  \<^verbatim>\<open>a + k\<close>, \<^verbatim>\<open>np.clip(a, 0, image.shape[i]-1)\<close>, \<^verbatim>\<open>image[rows, cols]\<close> and the
  arithmetic.\<close>

definition st_floor_int :: "nat \<Rightarrow> nat action" where
  "st_floor_int x s = new_ints (floor_int (floats s ! x)) s"

definition st_add_scalar :: "nat \<Rightarrow> int \<Rightarrow> nat action" where
  "st_add_scalar a k s = new_ints (add_scalar (ints s ! a) k) s"

definition st_clip_to :: "nat \<Rightarrow> (image \<Rightarrow> nat) \<Rightarrow> nat \<Rightarrow> nat action" where
  "st_clip_to a shape img s = new_ints (np_clip (ints s ! a) 0 (int (shape (grids s ! img)) - 1)) s"

definition st_getitem :: "nat \<Rightarrow> nat \<Rightarrow> nat \<Rightarrow> nat action" where
  "st_getitem img rows cols s = new_floats (getitem (grids s ! img) (ints s ! rows) (ints s ! cols)) s"

definition st_sub_if :: "nat \<Rightarrow> nat \<Rightarrow> nat action" where
  "st_sub_if a b s = new_floats (sub_if (ints s ! a) (floats s ! b)) s"

definition st_sub_fi :: "nat \<Rightarrow> nat \<Rightarrow> nat action" where
  "st_sub_fi a b s = new_floats (sub_fi (floats s ! a) (ints s ! b)) s"

definition st_mul :: "nat \<Rightarrow> nat \<Rightarrow> nat action" where
  "st_mul a b s = new_floats (mul (floats s ! a) (floats s ! b)) s"

definition st_add :: "nat \<Rightarrow> nat \<Rightarrow> nat action" where
  "st_add a b s = new_floats (add (floats s ! a) (floats s ! b)) s"

text \<open>\<^verbatim>\<open>bilinear_interpolate(image, x, y)\<close> on references; \<open>a\<close> and \<open>b\<close> name the two
  temporaries of each weight.\<close>

definition bilinear_interpolate_st :: "nat \<Rightarrow> nat \<Rightarrow> nat \<Rightarrow> nat action" where
  "bilinear_interpolate_st img x y =
     st_bind (st_floor_int x) (\<lambda>x0.
     st_bind (st_add_scalar x0 1) (\<lambda>x1.
     st_bind (st_floor_int y) (\<lambda>y0.
     st_bind (st_add_scalar y0 1) (\<lambda>y1.
     st_bind (st_clip_to x0 shape1 img) (\<lambda>x0.
     st_bind (st_clip_to x1 shape1 img) (\<lambda>x1.
     st_bind (st_clip_to y0 shape0 img) (\<lambda>y0.
     st_bind (st_clip_to y1 shape0 img) (\<lambda>y1.
     st_bind (st_getitem img y0 x0) (\<lambda>Ia.
     st_bind (st_getitem img y1 x0) (\<lambda>Ib.
     st_bind (st_getitem img y0 x1) (\<lambda>Ic.
     st_bind (st_getitem img y1 x1) (\<lambda>Id.
     st_bind (st_sub_if x1 x) (\<lambda>a. st_bind (st_sub_if y1 y) (\<lambda>b. st_bind (st_mul a b) (\<lambda>wa.
     st_bind (st_sub_if x1 x) (\<lambda>a. st_bind (st_sub_fi y y0) (\<lambda>b. st_bind (st_mul a b) (\<lambda>wb.
     st_bind (st_sub_fi x x0) (\<lambda>a. st_bind (st_sub_if y1 y) (\<lambda>b. st_bind (st_mul a b) (\<lambda>wc.
     st_bind (st_sub_fi x x0) (\<lambda>a. st_bind (st_sub_fi y y0) (\<lambda>b. st_bind (st_mul a b) (\<lambda>wd.
     st_bind (st_mul Ia wa) (\<lambda>ta.
     st_bind (st_mul Ib wb) (\<lambda>tb.
     st_bind (st_add ta tb) (\<lambda>s1.
     st_bind (st_mul Ic wc) (\<lambda>tc.
     st_bind (st_add s1 tc) (\<lambda>s2.
     st_bind (st_mul Id wd) (\<lambda>td.
     st_add s2 td))))))))))))))))))))))))))))))"

text \<open>
  \<open>extends s s'\<close>: every object of \<open>s\<close> is in \<open>s'\<close> at the same reference with the same
  contents (objects are only added). \<open>preserves m\<close>: the action \<open>m\<close> only extends the store.
  \<open>value_of\<close> reads the array an action returned; \<open>result_fresh m\<close>: a reference returned by
  \<open>m\<close> denotes an object allocated by \<open>m\<close>.
\<close>

definition extends :: "store \<Rightarrow> store \<Rightarrow> bool" where
  "extends s s' \<longleftrightarrow>
     grids s' = grids s \<and> prefix (floats s) (floats s') \<and> prefix (ints s) (ints s')"

definition value_of :: "store \<times> (error + nat) \<Rightarrow> error + real list" where
  "value_of p = (case snd p of Inl e \<Rightarrow> Inl e | Inr r \<Rightarrow> Inr (floats (fst p) ! r))"

definition result_fresh :: "nat action \<Rightarrow> bool" where
  "result_fresh m \<longleftrightarrow>
     (\<forall>s. case snd (m s) of
            Inl e \<Rightarrow> True
          | Inr r \<Rightarrow> length (floats s) \<le> r \<and> r < length (floats (fst (m s))))"

definition preserves :: "'a action \<Rightarrow> bool" where
  "preserves m \<longleftrightarrow> (\<forall>s. extends s (fst (m s)))"

section \<open>Properties of the array operations\<close>

lemma and_then_Inr [simp]: "and_then (Inr v) f = f v"
  by (simp add: and_then_def)

lemma and_then_Inl [simp]: "and_then (Inl e) f = Inl e"
  by (simp add: and_then_def)

lemma broadcast_same: "length a = length b \<Longrightarrow> broadcast a b = Some (zip a b)"
  by (simp add: broadcast_def)

lemma ufunc_same: "length a = length b \<Longrightarrow> ufunc f a b = Inr (map2 f a b)"
  by (simp add: ufunc_def broadcast_same)

lemma those_map_Some:
  "(\<And>p. p \<in> set ps \<Longrightarrow> f p = Some (g p)) \<Longrightarrow> those (map f ps) = Some (map g ps)"
  by (induction ps) auto

lemma those_map_None:
  "ps \<noteq> [] \<Longrightarrow> (\<And>p. p \<in> set ps \<Longrightarrow> f p = None) \<Longrightarrow> those (map f ps) = None"
  by (cases ps) auto

lemma clip1_range: "0 < n \<Longrightarrow> 0 \<le> clip1 v 0 (int n - 1) \<and> clip1 v 0 (int n - 1) < int n"
  by (auto simp: clip1_def)

lemma axis_index_clip1:
  "0 < n \<Longrightarrow> axis_index n (clip1 v 0 (int n - 1)) = Some (nat (clip1 v 0 (int n - 1)))"
  using clip1_range [of n v] by (simp add: axis_index_def)

lemma cell_clip1:
  "0 < shape0 img \<Longrightarrow> 0 < shape1 img \<Longrightarrow>
   cell img (clip1 r 0 (int (shape0 img) - 1), clip1 c 0 (int (shape1 img) - 1))
     = Some (img ! nat (clip1 r 0 (int (shape0 img) - 1)) ! nat (clip1 c 0 (int (shape1 img) - 1)))"
  by (simp add: cell_def axis_index_clip1)

lemma np_clip_map: "np_clip a lo hi = map (\<lambda>v. clip1 v lo hi) a"
  by (simp add: np_clip_def clip1_def)

lemma length_floor_int [simp]: "length (floor_int x) = length x"
  by (simp add: floor_int_def)

lemma length_add_scalar [simp]: "length (add_scalar a k) = length a"
  by (simp add: add_scalar_def)

lemma length_np_clip [simp]: "length (np_clip a lo hi) = length a"
  by (simp add: np_clip_def)

text \<open>On a field with at least one row and one column the clipped indices are always in
  bounds, so the four neighbour lookups succeed.\<close>

lemma getitem_clipped:
  assumes "length a = length b" "0 < shape0 img" "0 < shape1 img"
  shows "getitem img (np_clip a 0 (int (shape0 img) - 1)) (np_clip b 0 (int (shape1 img) - 1))
     = Inr (map2 (\<lambda>r c. img ! nat (clip1 r 0 (int (shape0 img) - 1)) ! nat (clip1 c 0 (int (shape1 img) - 1))) a b)"
proof -
  let ?ps = "zip (np_clip a 0 (int (shape0 img) - 1)) (np_clip b 0 (int (shape1 img) - 1))"
  have ps: "?ps = map (\<lambda>(r, c). (clip1 r 0 (int (shape0 img) - 1), clip1 c 0 (int (shape1 img) - 1))) (zip a b)"
    by (simp add: np_clip_map zip_map_map)
  have "those (map (cell img) ?ps) = Some (map (\<lambda>(r, c). img ! nat r ! nat c) ?ps)"
  proof (rule those_map_Some)
    fix p assume "p \<in> set ?ps"
    then obtain r c where "p = (clip1 r 0 (int (shape0 img) - 1), clip1 c 0 (int (shape1 img) - 1))"
      unfolding ps by auto
    then show "cell img p = Some ((\<lambda>(r, c). img ! nat r ! nat c) p)"
      using assms by (simp add: cell_clip1)
  qed
  moreover have "map (\<lambda>(r, c). img ! nat r ! nat c) ?ps
      = map2 (\<lambda>r c. img ! nat (clip1 r 0 (int (shape0 img) - 1)) ! nat (clip1 c 0 (int (shape1 img) - 1))) a b"
    unfolding ps by (simp add: case_prod_unfold)
  ultimately show ?thesis
    using assms by (simp add: getitem_def broadcast_same np_clip_def)
qed

section \<open>Properties of the bilinear sampler\<close>

text \<open>The vectorised code computes \<open>point\<close> at every position of the batch.\<close>

lemma bilinear_interpolate_points:
  assumes "length x = length y" and "0 < shape0 img" and "0 < shape1 img"
  shows "bilinear_interpolate img x y = Inr (map2 (point img) x y)"
proof -
  have "bilinear_interpolate img x y =
      Inr (map2 (+) (map2 (+) (map2 (+)
        (map2 (*) (map2 (\<lambda>r c. img ! nat (clip1 r 0 (int (shape0 img) - 1)) ! nat (clip1 c 0 (int (shape1 img) - 1)))
                     (floor_int y) (floor_int x))
           (map2 (*) (map2 (\<lambda>u v. real_of_int u - v) (np_clip (add_scalar (floor_int x) 1) 0 (int (shape1 img) - 1)) x)
                     (map2 (\<lambda>u v. real_of_int u - v) (np_clip (add_scalar (floor_int y) 1) 0 (int (shape0 img) - 1)) y)))
        (map2 (*) (map2 (\<lambda>r c. img ! nat (clip1 r 0 (int (shape0 img) - 1)) ! nat (clip1 c 0 (int (shape1 img) - 1)))
                     (add_scalar (floor_int y) 1) (floor_int x))
           (map2 (*) (map2 (\<lambda>u v. real_of_int u - v) (np_clip (add_scalar (floor_int x) 1) 0 (int (shape1 img) - 1)) x)
                     (map2 (\<lambda>u v. u - real_of_int v) y (np_clip (floor_int y) 0 (int (shape0 img) - 1))))))
        (map2 (*) (map2 (\<lambda>r c. img ! nat (clip1 r 0 (int (shape0 img) - 1)) ! nat (clip1 c 0 (int (shape1 img) - 1)))
                     (floor_int y) (add_scalar (floor_int x) 1))
           (map2 (*) (map2 (\<lambda>u v. u - real_of_int v) x (np_clip (floor_int x) 0 (int (shape1 img) - 1)))
                     (map2 (\<lambda>u v. real_of_int u - v) (np_clip (add_scalar (floor_int y) 1) 0 (int (shape0 img) - 1)) y))))
        (map2 (*) (map2 (\<lambda>r c. img ! nat (clip1 r 0 (int (shape0 img) - 1)) ! nat (clip1 c 0 (int (shape1 img) - 1)))
                     (add_scalar (floor_int y) 1) (add_scalar (floor_int x) 1))
           (map2 (*) (map2 (\<lambda>u v. u - real_of_int v) x (np_clip (floor_int x) 0 (int (shape1 img) - 1)))
                     (map2 (\<lambda>u v. u - real_of_int v) y (np_clip (floor_int y) 0 (int (shape0 img) - 1))))))"
    unfolding bilinear_interpolate_def Let_def
    using assms
    by (simp add: getitem_clipped weight_def sub_if_def sub_fi_def mul_def add_def ufunc_same)
  also have "\<dots> = Inr (map2 (point img) x y)"
    using assms
    by (auto intro!: nth_equalityI
        simp: point_def Let_def floor_int_def add_scalar_def np_clip_map)
  finally show ?thesis .
qed

lemmas sampler_defs =
  bilinear_interpolate_def floor_int_def add_scalar_def np_clip_def shape0_def shape1_def
  getitem_def broadcast_def cell_def axis_index_def weight_def sub_if_def sub_fi_def
  mul_def add_def ufunc_def

text \<open>A single query point.\<close>
lemma bilinear_interpolate_one:
  "0 < shape0 img \<Longrightarrow> 0 < shape1 img \<Longrightarrow> bilinear_interpolate img [x] [y] = Inr [point img x y]"
  by (simp add: bilinear_interpolate_points)

lemma clip1_collapse:
  "0 < n \<Longrightarrow> v < 0 \<or> int n - 1 \<le> v \<Longrightarrow> clip1 v 0 (int n - 1) = clip1 (v + 1) 0 (int n - 1)"
  by (auto simp: clip1_def)

lemma clip1_inside:
  "0 \<le> v \<Longrightarrow> v \<le> hi \<Longrightarrow> clip1 v 0 hi = v"
  by (auto simp: clip1_def)

lemma point_cols_collapse:
  "clip1 \<lfloor>x\<rfloor> 0 (int (shape1 img) - 1) = clip1 (\<lfloor>x\<rfloor> + 1) 0 (int (shape1 img) - 1) \<Longrightarrow> point img x y = 0"
  by (simp add: point_def Let_def algebra_simps)

lemma point_rows_collapse:
  "clip1 \<lfloor>y\<rfloor> 0 (int (shape0 img) - 1) = clip1 (\<lfloor>y\<rfloor> + 1) 0 (int (shape0 img) - 1) \<Longrightarrow> point img x y = 0"
  by (simp add: point_def Let_def algebra_simps)

lemma floor_outside:
  "0 < n \<Longrightarrow> x < 0 \<or> real n - 1 \<le> x \<Longrightarrow> \<lfloor>x\<rfloor> < 0 \<or> int n - 1 \<le> \<lfloor>x\<rfloor>"
  by (auto simp: floor_less_iff le_floor_iff)

lemma point_zero_outside:
  assumes "0 < shape0 img" "0 < shape1 img"
    and "x < 0 \<or> real (shape1 img) - 1 \<le> x \<or> y < 0 \<or> real (shape0 img) - 1 \<le> y"
  shows "point img x y = 0"
proof -
  consider "x < 0 \<or> real (shape1 img) - 1 \<le> x" | "y < 0 \<or> real (shape0 img) - 1 \<le> y"
    using assms(3) by blast
  then show ?thesis
  proof cases
    case 1
    then show ?thesis
      using assms(2) by (intro point_cols_collapse clip1_collapse floor_outside)
  next
    case 2
    then show ?thesis
      using assms(1) by (intro point_rows_collapse clip1_collapse floor_outside)
  qed
qed

lemma point_inside:
  assumes "0 \<le> x" "x < real (shape1 img) - 1" "0 \<le> y" "y < real (shape0 img) - 1"
  shows "point img x y =
       img ! nat \<lfloor>y\<rfloor> ! nat \<lfloor>x\<rfloor> * ((real_of_int \<lfloor>x\<rfloor> + 1 - x) * (real_of_int \<lfloor>y\<rfloor> + 1 - y))
     + img ! nat (\<lfloor>y\<rfloor> + 1) ! nat \<lfloor>x\<rfloor> * ((real_of_int \<lfloor>x\<rfloor> + 1 - x) * (y - real_of_int \<lfloor>y\<rfloor>))
     + img ! nat \<lfloor>y\<rfloor> ! nat (\<lfloor>x\<rfloor> + 1) * ((x - real_of_int \<lfloor>x\<rfloor>) * (real_of_int \<lfloor>y\<rfloor> + 1 - y))
     + img ! nat (\<lfloor>y\<rfloor> + 1) ! nat (\<lfloor>x\<rfloor> + 1) * ((x - real_of_int \<lfloor>x\<rfloor>) * (y - real_of_int \<lfloor>y\<rfloor>))"
proof -
  have "\<lfloor>x\<rfloor> < int (shape1 img) - 1" "\<lfloor>y\<rfloor> < int (shape0 img) - 1"
    using assms(2,4) by (simp_all add: floor_less_iff)
  then have fx: "0 \<le> \<lfloor>x\<rfloor>" "\<lfloor>x\<rfloor> + 1 \<le> int (shape1 img) - 1"
    and fy: "0 \<le> \<lfloor>y\<rfloor>" "\<lfloor>y\<rfloor> + 1 \<le> int (shape0 img) - 1"
    using assms(1,3) by simp_all
  have "clip1 \<lfloor>x\<rfloor> 0 (int (shape1 img) - 1) = \<lfloor>x\<rfloor>"
    "clip1 (\<lfloor>x\<rfloor> + 1) 0 (int (shape1 img) - 1) = \<lfloor>x\<rfloor> + 1"
    "clip1 \<lfloor>y\<rfloor> 0 (int (shape0 img) - 1) = \<lfloor>y\<rfloor>"
    "clip1 (\<lfloor>y\<rfloor> + 1) 0 (int (shape0 img) - 1) = \<lfloor>y\<rfloor> + 1"
    using fx fy by (simp_all add: clip1_inside)
  then show ?thesis
    by (simp add: point_def Let_def)
qed

text \<open>
  Where no index is clamped (\<open>0 \<le> x < W - 1\<close> and \<open>0 \<le> y < H - 1\<close>) the code and the
  sampler of the specification agree, and a grid point is sampled as its cell.
\<close>
lemma spec_sample_inside:
  assumes "0 \<le> x" "x < real (shape1 img) - 1" "0 \<le> y" "y < real (shape0 img) - 1"
  shows "bilinear_interpolate img [x] [y] = Inr (spec_sample img [x] [y])"
proof -
  have "\<lfloor>x\<rfloor> < int (shape1 img) - 1" "\<lfloor>y\<rfloor> < int (shape0 img) - 1"
    using assms(2,4) by (simp_all add: floor_less_iff)
  then have fx: "0 \<le> \<lfloor>x\<rfloor>" "\<lfloor>x\<rfloor> + 1 \<le> int (shape1 img) - 1"
    and fy: "0 \<le> \<lfloor>y\<rfloor>" "\<lfloor>y\<rfloor> + 1 \<le> int (shape0 img) - 1"
    using assms(1,3) by simp_all
  have clips: "clip1 \<lfloor>x\<rfloor> 0 (int (shape1 img) - 1) = \<lfloor>x\<rfloor>"
    "clip1 (\<lfloor>x\<rfloor> + 1) 0 (int (shape1 img) - 1) = \<lfloor>x\<rfloor> + 1"
    "clip1 \<lfloor>y\<rfloor> 0 (int (shape0 img) - 1) = \<lfloor>y\<rfloor>"
    "clip1 (\<lfloor>y\<rfloor> + 1) 0 (int (shape0 img) - 1) = \<lfloor>y\<rfloor> + 1"
    using fx fy by (simp_all add: clip1_inside)
  have pos: "0 < shape0 img" "0 < shape1 img"
    using assms by (auto intro: gr0I)
  have "spec_sample_point img x y = point img x y"
    using assms by (simp add: point_inside spec_sample_point_def Let_def clips)
  then show ?thesis
    using pos by (simp add: bilinear_interpolate_one spec_sample_def)
qed

lemma grid_point_inside:
  assumes "int i < int (shape1 img) - 1" "int j < int (shape0 img) - 1"
  shows "bilinear_interpolate img [real i] [real j] = Inr [img ! j ! i]"
proof -
  have pos: "0 < shape0 img" "0 < shape1 img"
    using assms by (auto intro: gr0I)
  have "point img (real i) (real j) = img ! j ! i"
    using assms by (simp add: point_inside [of "real i" img "real j"])
  then show ?thesis
    using pos by (simp add: bilinear_interpolate_one)
qed

text \<open>A field without rows or without columns: every lookup is out of bounds, so any
  non-empty batch raises \<^verbatim>\<open>IndexError\<close>; the empty batch returns the empty array.\<close>
lemma cell_empty_field:
  assumes "shape0 img = 0 \<or> shape1 img = 0"
  shows "cell img (clip1 r 0 (int (shape0 img) - 1), clip1 c 0 (int (shape1 img) - 1)) = None"
  using assms by (auto simp: cell_def axis_index_def clip1_def split: option.splits)

lemma getitem_empty_field:
  assumes "length a = length b" "a \<noteq> []" "shape0 img = 0 \<or> shape1 img = 0"
  shows "getitem img (np_clip a 0 (int (shape0 img) - 1)) (np_clip b 0 (int (shape1 img) - 1))
     = Inl IndexError"
proof -
  let ?ps = "zip (np_clip a 0 (int (shape0 img) - 1)) (np_clip b 0 (int (shape1 img) - 1))"
  have ps: "?ps = map (\<lambda>(r, c). (clip1 r 0 (int (shape0 img) - 1), clip1 c 0 (int (shape1 img) - 1))) (zip a b)"
    by (simp add: np_clip_map zip_map_map)
  have ne: "?ps \<noteq> []"
    using assms(1,2) by (cases a; cases b) (simp_all add: np_clip_def)
  have "those (map (cell img) ?ps) = None"
  proof (rule those_map_None [OF ne])
    fix p assume "p \<in> set ?ps"
    then obtain r c where "p = (clip1 r 0 (int (shape0 img) - 1), clip1 c 0 (int (shape1 img) - 1))"
      unfolding ps by auto
    then show "cell img p = None"
      using assms(3) by (simp add: cell_empty_field)
  qed
  then show ?thesis
    using assms(1) by (simp add: getitem_def broadcast_same)
qed

lemma bilinear_interpolate_empty_field:
  assumes "length x = length y" "x \<noteq> []" "shape0 img = 0 \<or> shape1 img = 0"
  shows "bilinear_interpolate img x y = Inl IndexError"
proof -
  have "getitem img (np_clip (floor_int y) 0 (int (shape0 img) - 1))
          (np_clip (floor_int x) 0 (int (shape1 img) - 1)) = Inl IndexError"
    using assms by (intro getitem_empty_field) (auto simp: floor_int_def)
  then show ?thesis
    by (simp add: bilinear_interpolate_def Let_def)
qed

lemma bilinear_interpolate_no_points: "bilinear_interpolate img [] [] = Inr []"
  by (simp add: sampler_defs and_then_def)

text \<open>
  Claim C1. The claim: the four weights are formed from the integers before clamping, and
  only the lookups use the clamped indices. The code rebinds \<open>x0\<close>, \<open>x1\<close>, \<open>y0\<close>, \<open>y1\<close>
  to the clipped values first, so its weights use the clamped indices. On the field with
  rows \<open>[0, 1]\<close> and \<open>[2, 3]\<close> at \<open>x = 1\<close>, \<open>y = 0.5\<close> the code returns \<open>0\<close>, where the
  sampler of the specification returns \<open>2\<close>.
\<close>
theorem weights_use_clipped_indices:
  "bilinear_interpolate [[0, 1], [2, 3]] [1] [1 / 2] = Inr [0]
   \<and> spec_sample [[0, 1], [2, 3]] [1] [1 / 2] = [2]"
  by code_simp

text \<open>
  Claim C2. The claim: at every grid point inside the bounds the sample is the cell's
  value. On the field with rows \<open>[0, 1]\<close> and \<open>[2, 3]\<close> the code returns \<open>0\<close> at
  \<open>x = 1\<close>, \<open>y = 1\<close>, where the cell holds \<open>3\<close>; at \<open>x = 0\<close>, \<open>y = 0\<close> it returns the
  cell's value \<open>0\<close>.
\<close>
theorem far_corner_grid_point:
  "bilinear_interpolate [[0, 1], [2, 3]] [1] [1] = Inr [0]
   \<and> [[0, 1], [2, 3 :: real]] ! 1 ! 1 = 3
   \<and> bilinear_interpolate [[0, 1], [2, 3]] [0] [0] = Inr [0]"
  by code_simp

text \<open>
  Claim C3. The claim: far outside the grid the sample is the value of the nearest edge
  cell. On the one-cell field \<open>[[5]]\<close> at \<open>x = 10\<close>, \<open>y = 10\<close> the code returns \<open>0\<close>,
  not \<open>5\<close>.
\<close>
theorem out_of_range_single_cell:
  "bilinear_interpolate [[5]] [10] [10] = Inr [0]"
  by code_simp

text \<open>
  Claim C4. On a field with at least one row and one column, a query point with \<open>x < 0\<close>
  or \<open>x \<ge> W - 1\<close>, or with \<open>y < 0\<close> or \<open>y \<ge> H - 1\<close>, is sampled as exactly \<open>0\<close>,
  whatever the field holds; in particular every sample of a field with one row or one
  column is \<open>0\<close>.
\<close>
theorem far_border_zero:
  assumes "0 < shape0 img" and "0 < shape1 img"
  shows "(x < 0 \<or> real (shape1 img) - 1 \<le> x \<or> y < 0 \<or> real (shape0 img) - 1 \<le> y
            \<longrightarrow> bilinear_interpolate img [x] [y] = Inr [0])
       \<and> (shape0 img = 1 \<or> shape1 img = 1 \<longrightarrow> bilinear_interpolate img [x] [y] = Inr [0])"
proof (intro conjI impI)
  assume "x < 0 \<or> real (shape1 img) - 1 \<le> x \<or> y < 0 \<or> real (shape0 img) - 1 \<le> y"
  then show "bilinear_interpolate img [x] [y] = Inr [0]"
    using assms by (simp add: bilinear_interpolate_one point_zero_outside)
next
  assume one: "shape0 img = 1 \<or> shape1 img = 1"
  have "x < 0 \<or> real (shape1 img) - 1 \<le> x \<or> y < 0 \<or> real (shape0 img) - 1 \<le> y"
    using one by (cases "x < 0"; cases "y < 0") auto
  then show "bilinear_interpolate img [x] [y] = Inr [0]"
    using assms by (simp add: bilinear_interpolate_one point_zero_outside)
qed

theorem far_border_zero_witness:
  "bilinear_interpolate [[0, 1, 2], [10, 11, 12], [20, 21, 22]] [- 5] [1] = Inr [0]
   \<and> bilinear_interpolate [[0, 1, 2], [10, 11, 12], [20, 21, 22]] [2] [1 / 2] = Inr [0]
   \<and> bilinear_interpolate [[7, 8, 9]] [1 / 2] [0] = Inr [0]"
  using far_border_zero [of "[[0, 1, 2], [10, 11, 12], [20, 21, 22]]" "- 5" 1]
    far_border_zero [of "[[0, 1, 2], [10, 11, 12], [20, 21, 22]]" 2 "1 / 2"]
    far_border_zero [of "[[7, 8, 9]]" "1 / 2" 0]
  by (simp add: shape0_def shape1_def)

text \<open>
  Claim C5. If the cells of the field are \<open>a * row + b * col + k\<close>, then at every point
  strictly inside the grid (\<open>0 < x < W - 1\<close>, \<open>0 < y < H - 1\<close>) with fractional
  coordinates the sample is exactly \<open>a * y + b * x + k\<close>.
\<close>
theorem interior_linearity:
  assumes plane: "\<forall>r<shape0 img. \<forall>c<shape1 img. img ! r ! c = a * real r + b * real c + k"
    and x: "0 < x" "x < real (shape1 img) - 1" "x \<notin> \<int>"
    and y: "0 < y" "y < real (shape0 img) - 1" "y \<notin> \<int>"
  shows "bilinear_interpolate img [x] [y] = Inr [a * y + b * x + k]"
proof -
  have pos: "0 < shape0 img" "0 < shape1 img"
    using x y by (auto intro: gr0I)
  have up: "\<lfloor>x\<rfloor> < int (shape1 img) - 1" "\<lfloor>y\<rfloor> < int (shape0 img) - 1"
    using x(2) y(2) by (simp_all add: floor_less_iff)
  have lo: "0 \<le> \<lfloor>x\<rfloor>" "0 \<le> \<lfloor>y\<rfloor>"
    using x(1) y(1) by simp_all
  have r: "nat \<lfloor>y\<rfloor> < shape0 img" "nat (\<lfloor>y\<rfloor> + 1) < shape0 img"
    and c: "nat \<lfloor>x\<rfloor> < shape1 img" "nat (\<lfloor>x\<rfloor> + 1) < shape1 img"
    and n: "real (nat \<lfloor>x\<rfloor>) = real_of_int \<lfloor>x\<rfloor>" "real (nat (\<lfloor>x\<rfloor> + 1)) = real_of_int \<lfloor>x\<rfloor> + 1"
           "real (nat \<lfloor>y\<rfloor>) = real_of_int \<lfloor>y\<rfloor>" "real (nat (\<lfloor>y\<rfloor> + 1)) = real_of_int \<lfloor>y\<rfloor> + 1"
    using up lo by linarith+
  have cells:
    "img ! nat \<lfloor>y\<rfloor> ! nat \<lfloor>x\<rfloor> = a * real_of_int \<lfloor>y\<rfloor> + b * real_of_int \<lfloor>x\<rfloor> + k"
    "img ! nat (\<lfloor>y\<rfloor> + 1) ! nat \<lfloor>x\<rfloor> = a * (real_of_int \<lfloor>y\<rfloor> + 1) + b * real_of_int \<lfloor>x\<rfloor> + k"
    "img ! nat \<lfloor>y\<rfloor> ! nat (\<lfloor>x\<rfloor> + 1) = a * real_of_int \<lfloor>y\<rfloor> + b * (real_of_int \<lfloor>x\<rfloor> + 1) + k"
    "img ! nat (\<lfloor>y\<rfloor> + 1) ! nat (\<lfloor>x\<rfloor> + 1) = a * (real_of_int \<lfloor>y\<rfloor> + 1) + b * (real_of_int \<lfloor>x\<rfloor> + 1) + k"
    using plane r c n by simp_all
  have "point img x y =
      (a * real_of_int \<lfloor>y\<rfloor> + b * real_of_int \<lfloor>x\<rfloor> + k)
         * ((real_of_int \<lfloor>x\<rfloor> + 1 - x) * (real_of_int \<lfloor>y\<rfloor> + 1 - y))
    + (a * (real_of_int \<lfloor>y\<rfloor> + 1) + b * real_of_int \<lfloor>x\<rfloor> + k)
         * ((real_of_int \<lfloor>x\<rfloor> + 1 - x) * (y - real_of_int \<lfloor>y\<rfloor>))
    + (a * real_of_int \<lfloor>y\<rfloor> + b * (real_of_int \<lfloor>x\<rfloor> + 1) + k)
         * ((x - real_of_int \<lfloor>x\<rfloor>) * (real_of_int \<lfloor>y\<rfloor> + 1 - y))
    + (a * (real_of_int \<lfloor>y\<rfloor> + 1) + b * (real_of_int \<lfloor>x\<rfloor> + 1) + k)
         * ((x - real_of_int \<lfloor>x\<rfloor>) * (y - real_of_int \<lfloor>y\<rfloor>))"
    using point_inside [of x img y] x y by (simp only: cells less_imp_le)
  also have "\<dots> = a * y + b * x + k"
    by (simp add: algebra_simps)
  finally have "point img x y = a * y + b * x + k" .
  then show ?thesis
    using pos by (simp add: bilinear_interpolate_one)
qed

theorem interior_linearity_witness:
  "bilinear_interpolate [[0, 1, 2], [10, 11, 12], [20, 21, 22]] [1 / 2] [3 / 2] = Inr [31 / 2]"
proof -
  let ?img = "[[0, 1, 2], [10, 11, 12], [20, 21, 22]] :: image"
  have plane: "\<forall>r<shape0 ?img. \<forall>c<shape1 ?img. ?img ! r ! c = 10 * real r + 1 * real c + 0"
    by (simp add: shape0_def shape1_def All_less_Suc eval_nat_numeral)
  have x: "(0::real) < 1 / 2" "(1 / 2 :: real) < real (shape1 ?img) - 1" "(1 / 2 :: real) \<notin> \<int>"
    by (simp_all add: shape1_def)
  have y: "(0::real) < 3 / 2" "(3 / 2 :: real) < real (shape0 ?img) - 1" "(3 / 2 :: real) \<notin> \<int>"
    by (simp_all add: shape0_def)
  show ?thesis
    using interior_linearity [OF plane x y] by simp
qed

text \<open>
  Claim C6. On the field with rows \<open>[0, 1]\<close> and \<open>[2, 3]\<close>, sampling at \<open>x = 0.5\<close>,
  \<open>y = 0.5\<close> returns \<open>1.5\<close>, the mean of the four cells.
\<close>

theorem sample_centre_of_2x2:
  "bilinear_interpolate [[0, 1], [2, 3]] [1 / 2] [1 / 2] = Inr [3 / 2]"
  by code_simp

text \<open>
  Claim C7. For coordinate arrays of equal length, on every field: whenever the sampler
  returns, the result has the length of the inputs and its \<open>i\<close>-th element is the result
  of sampling the \<open>i\<close>-th point alone; and on a field with at least one row and one column
  the sampler does return.
\<close>
theorem batch_elementwise:
  assumes "length x = length y"
  shows "(\<forall>vs. bilinear_interpolate img x y = Inr vs \<longrightarrow>
            length vs = length x
          \<and> (\<forall>i<length x. bilinear_interpolate img [x ! i] [y ! i] = Inr [vs ! i]))
       \<and> (0 < shape0 img \<and> 0 < shape1 img \<longrightarrow> (\<exists>vs. bilinear_interpolate img x y = Inr vs))"
proof (cases "0 < shape0 img \<and> 0 < shape1 img")
  case True
  then have "bilinear_interpolate img x y = Inr (map2 (point img) x y)"
    and "\<And>u v. bilinear_interpolate img [u] [v] = Inr [point img u v]"
    using assms by (simp_all add: bilinear_interpolate_points)
  then show ?thesis
    using assms by auto
next
  case False
  then have empty: "shape0 img = 0 \<or> shape1 img = 0"
    by auto
  show ?thesis
  proof (cases "x = []")
    case True
    then show ?thesis
      using assms False by (simp add: bilinear_interpolate_no_points)
  next
    case False
    then show ?thesis
      using assms empty by (auto simp: bilinear_interpolate_empty_field)
  qed
qed

theorem batch_elementwise_witness:
  "bilinear_interpolate [[0, 1], [2, 3]] [1 / 2, 1 / 4] [1 / 2, 0] = Inr [3 / 2, 1 / 4]
   \<and> bilinear_interpolate [[0, 1], [2, 3]] [1 / 2] [1 / 2] = Inr [3 / 2]
   \<and> bilinear_interpolate [[0, 1], [2, 3]] [1 / 4] [0] = Inr [1 / 4]"
proof -
  let ?img = "[[0, 1], [2, 3]] :: image"
  have v: "bilinear_interpolate ?img [1 / 2, 1 / 4] [1 / 2, 0] = Inr [3 / 2, 1 / 4]"
    by code_simp
  have len: "length [1 / 2, 1 / 4 :: real] = length [1 / 2, 0 :: real]"
    by simp
  from batch_elementwise [OF len, of ?img] v
  have "\<forall>i<length [1 / 2, 1 / 4 :: real].
      bilinear_interpolate ?img [[1 / 2, 1 / 4] ! i] [[1 / 2, 0] ! i] = Inr [[3 / 2, 1 / 4] ! i]"
    by blast
  from this [rule_format, of 0] this [rule_format, of 1] v show ?thesis
    by simp
qed

section \<open>Properties of the sampler on a store\<close>

lemma extends_refl [simp]: "extends s s"
  by (simp add: extends_def)

lemma extends_trans: "extends s t \<Longrightarrow> extends t u \<Longrightarrow> extends s u"
  by (auto simp: extends_def)

lemma preserves_bind: "preserves m \<Longrightarrow> (\<And>v. preserves (f v)) \<Longrightarrow> preserves (st_bind m f)"
  unfolding preserves_def
proof
  fix s
  assume m: "\<forall>s. extends s (fst (m s))" and f: "\<And>v. \<forall>s. extends s (fst (f v s))"
  show "extends s (fst (st_bind m f s))"
  proof (cases "m s")
    case (Pair s' r)
    then have e: "extends s s'"
      using m [rule_format, of s] by simp
    show ?thesis
    proof (cases r)
      case (Inl err)
      then show ?thesis using Pair e by (simp add: st_bind_def)
    next
      case (Inr v)
      then show ?thesis
        using Pair e f [of v, rule_format, of s'] by (auto simp: st_bind_def intro: extends_trans)
    qed
  qed
qed

lemma preserves_new_ints: "preserves (new_ints v)"
  by (simp add: preserves_def new_ints_def extends_def)

lemma preserves_new_floats: "preserves (new_floats r)"
  by (simp add: preserves_def new_floats_def extends_def split: sum.splits)

lemma preserves_ops:
  "preserves (st_floor_int a)" "preserves (st_add_scalar a k)" "preserves (st_clip_to a shape img)"
  "preserves (st_getitem img a b)" "preserves (st_sub_if a b)" "preserves (st_sub_fi a b)"
  "preserves (st_mul a b)" "preserves (st_add a b)"
  by (simp_all add: preserves_def st_floor_int_def st_add_scalar_def st_clip_to_def st_getitem_def
      st_sub_if_def st_sub_fi_def st_mul_def st_add_def new_ints_def new_floats_def extends_def
      split: sum.splits)

lemma preserves_bilinear_interpolate_st: "preserves (bilinear_interpolate_st img x y)"
  unfolding bilinear_interpolate_st_def
  by (intro preserves_bind preserves_ops)


lemmas st_ops_defs =
  st_floor_int_def st_add_scalar_def st_clip_to_def st_getitem_def
  st_sub_if_def st_sub_fi_def st_mul_def st_add_def

lemma value_of_bind_ints:
  "value_of (st_bind (st_floor_int a) f s)
     = value_of (f (length (ints s)) (s\<lparr>ints := ints s @ [floor_int (floats s ! a)]\<rparr>))"
  "value_of (st_bind (st_add_scalar a k) f s)
     = value_of (f (length (ints s)) (s\<lparr>ints := ints s @ [add_scalar (ints s ! a) k]\<rparr>))"
  "value_of (st_bind (st_clip_to a shape img) f s)
     = value_of (f (length (ints s))
         (s\<lparr>ints := ints s @ [np_clip (ints s ! a) 0 (int (shape (grids s ! img)) - 1)]\<rparr>))"
  by (simp_all add: st_bind_def st_ops_defs new_ints_def)

lemma value_of_bind_new_floats:
  "value_of (st_bind (new_floats r) f s)
     = and_then r (\<lambda>v. value_of (f (length (floats s)) (s\<lparr>floats := floats s @ [v]\<rparr>)))"
  by (cases r) (simp_all add: st_bind_def new_floats_def value_of_def)

lemma value_of_bind_floats:
  "value_of (st_bind (st_getitem img a b) f s)
     = and_then (getitem (grids s ! img) (ints s ! a) (ints s ! b))
         (\<lambda>v. value_of (f (length (floats s)) (s\<lparr>floats := floats s @ [v]\<rparr>)))"
  "value_of (st_bind (st_sub_if a b) f s)
     = and_then (sub_if (ints s ! a) (floats s ! b))
         (\<lambda>v. value_of (f (length (floats s)) (s\<lparr>floats := floats s @ [v]\<rparr>)))"
  "value_of (st_bind (st_sub_fi a b) f s)
     = and_then (sub_fi (floats s ! a) (ints s ! b))
         (\<lambda>v. value_of (f (length (floats s)) (s\<lparr>floats := floats s @ [v]\<rparr>)))"
  "value_of (st_bind (st_mul a b) f s)
     = and_then (mul (floats s ! a) (floats s ! b))
         (\<lambda>v. value_of (f (length (floats s)) (s\<lparr>floats := floats s @ [v]\<rparr>)))"
  "value_of (st_bind (st_add a b) f s)
     = and_then (add (floats s ! a) (floats s ! b))
         (\<lambda>v. value_of (f (length (floats s)) (s\<lparr>floats := floats s @ [v]\<rparr>)))"
  using value_of_bind_new_floats [of _ f s]
  by (simp_all add: st_bind_def st_ops_defs)

lemma value_of_st_add: "value_of (st_add a b s) = add (floats s ! a) (floats s ! b)"
  by (cases "add (floats s ! a) (floats s ! b)") (simp_all add: st_add_def new_floats_def value_of_def)

lemma and_then_assoc: "and_then (and_then a f) g = and_then a (\<lambda>u. and_then (f u) g)"
  by (cases a) simp_all

lemma value_of_bilinear_interpolate_st:
  assumes "x < length (floats s)" "y < length (floats s)"
  shows "value_of (bilinear_interpolate_st img x y s)
     = bilinear_interpolate (grids s ! img) (floats s ! x) (floats s ! y)"
  unfolding bilinear_interpolate_st_def bilinear_interpolate_def Let_def weight_def
  using assms
  by (simp add: value_of_bind_ints value_of_bind_floats value_of_st_add and_then_assoc nth_append)


lemma extends_length: "extends s s' \<Longrightarrow> length (floats s) \<le> length (floats s')"
  by (simp add: extends_def prefix_length_le)

lemma extends_nth:
  "extends s s' \<Longrightarrow> r < length (floats s) \<Longrightarrow> floats s' ! r = floats s ! r"
  by (auto simp: extends_def prefix_def nth_append)

lemma result_fresh_bind:
  assumes m: "preserves m" and f: "\<And>v. result_fresh (f v)"
  shows "result_fresh (st_bind m f)"
  unfolding result_fresh_def
proof
  fix s
  show "case snd (st_bind m f s) of Inl e \<Rightarrow> True
        | Inr r \<Rightarrow> length (floats s) \<le> r \<and> r < length (floats (fst (st_bind m f s)))"
  proof (cases "m s")
    case (Pair s' res)
    then have le: "length (floats s) \<le> length (floats s')"
      using m [unfolded preserves_def, rule_format, of s] by (simp add: extends_length)
    show ?thesis
    proof (cases res)
      case (Inl e)
      then show ?thesis using Pair by (simp add: st_bind_def)
    next
      case (Inr v)
      then have "st_bind m f s = f v s'"
        using Pair by (simp add: st_bind_def)
      then show ?thesis
        using f [of v, unfolded result_fresh_def, rule_format, of s'] le
        by (auto split: sum.splits)
    qed
  qed
qed

lemma result_fresh_st_add: "result_fresh (st_add a b)"
  by (simp add: result_fresh_def st_add_def new_floats_def split: sum.splits)

lemma result_fresh_bilinear_interpolate_st: "result_fresh (bilinear_interpolate_st img x y)"
  unfolding bilinear_interpolate_st_def
  by (intro result_fresh_bind preserves_ops result_fresh_st_add)

text \<open>
  Claim C8. Run on any store with valid references to the field and the two coordinate
  arrays (which may be one and the same array), the sampler leaves the field and the
  coordinate arrays as they were, indeed every object of the store; it only allocates. An
  exception or the contents of the returned, newly allocated array are those of
  \<open>bilinear_interpolate\<close> applied to the contents of the three arguments, so the output is a
  function of the field and the coordinates alone. The statements of the source contain no
  input or output operation, and the model has none.
\<close>
theorem sampler_is_pure:
  assumes "img < length (grids s)" and "x < length (floats s)" and "y < length (floats s)"
    and run: "bilinear_interpolate_st img x y s = (s', res)"
  shows "grids s' ! img = grids s ! img \<and> floats s' ! x = floats s ! x \<and> floats s' ! y = floats s ! y
       \<and> extends s s'
       \<and> (case res of
            Inl e \<Rightarrow> bilinear_interpolate (grids s ! img) (floats s ! x) (floats s ! y) = Inl e
          | Inr r \<Rightarrow> length (floats s) \<le> r \<and> r < length (floats s')
              \<and> bilinear_interpolate (grids s ! img) (floats s ! x) (floats s ! y) = Inr (floats s' ! r))"
proof -
  have ext: "extends s s'"
    using preserves_bilinear_interpolate_st [of img x y, unfolded preserves_def, rule_format, of s] run
    by simp
  have val: "value_of (s', res) = bilinear_interpolate (grids s ! img) (floats s ! x) (floats s ! y)"
    using value_of_bilinear_interpolate_st [of x s y img] assms by simp
  have new: "case res of Inl e \<Rightarrow> True | Inr r \<Rightarrow> length (floats s) \<le> r \<and> r < length (floats s')"
    using result_fresh_bilinear_interpolate_st [of img x y, unfolded result_fresh_def, rule_format, of s]
    unfolding run by (cases res) simp_all
  have "grids s' ! img = grids s ! img"
    using ext by (simp add: extends_def)
  moreover have "floats s' ! x = floats s ! x" "floats s' ! y = floats s ! y"
    using ext assms(2,3) by (simp_all add: extends_nth)
  moreover have "case res of
            Inl e \<Rightarrow> bilinear_interpolate (grids s ! img) (floats s ! x) (floats s ! y) = Inl e
          | Inr r \<Rightarrow> length (floats s) \<le> r \<and> r < length (floats s')
              \<and> bilinear_interpolate (grids s ! img) (floats s ! x) (floats s ! y) = Inr (floats s' ! r)"
    using val new by (cases res) (simp_all add: value_of_def)
  ultimately show ?thesis
    using ext by simp
qed

theorem sampler_is_pure_witness:
  "floats (fst (bilinear_interpolate_st 0 0 1
       \<lparr>grids = [[[0, 1], [2, 3]]], floats = [[1 / 2, 1 / 4], [1 / 2, 0]], ints = []\<rparr>)) ! 0 = [1 / 2, 1 / 4]
   \<and> floats (fst (bilinear_interpolate_st 0 0 1
       \<lparr>grids = [[[0, 1], [2, 3]]], floats = [[1 / 2, 1 / 4], [1 / 2, 0]], ints = []\<rparr>)) ! 1 = [1 / 2, 0]
   \<and> grids (fst (bilinear_interpolate_st 0 0 1
       \<lparr>grids = [[[0, 1], [2, 3]]], floats = [[1 / 2, 1 / 4], [1 / 2, 0]], ints = []\<rparr>)) ! 0 = [[0, 1], [2, 3]]
   \<and> bilinear_interpolate [[0, 1], [2, 3]] [1 / 2, 1 / 4] [1 / 2, 0]
       = Inr (floats (fst (bilinear_interpolate_st 0 0 1
           \<lparr>grids = [[[0, 1], [2, 3]]], floats = [[1 / 2, 1 / 4], [1 / 2, 0]], ints = []\<rparr>)) ! 24)"
proof -
  let ?s = "\<lparr>grids = [[[0, 1], [2, 3]]], floats = [[1 / 2, 1 / 4], [1 / 2, 0]], ints = []\<rparr>"
  let ?p = "bilinear_interpolate_st 0 0 1 ?s"
  have res: "snd ?p = Inr 24"
    by code_simp
  have "0 < length (grids ?s)" "0 < length (floats ?s)" "1 < length (floats ?s)" "?p = (fst ?p, snd ?p)"
    by simp_all
  from sampler_is_pure [OF this] show ?thesis
    unfolding res by simp
qed

text \<open>Two calls on arguments with equal contents, in any two stores, give equal results.\<close>

lemma same_inputs_same_output:
  assumes "x < length (floats s)" "y < length (floats s)" "x' < length (floats t)" "y' < length (floats t)"
    and "grids s ! img = grids t ! img'" "floats s ! x = floats t ! x'" "floats s ! y = floats t ! y'"
  shows "value_of (bilinear_interpolate_st img x y s) = value_of (bilinear_interpolate_st img' x' y' t)"
  using assms by (simp add: value_of_bilinear_interpolate_st)

section \<open>Properties of the point picker\<close>

lemma run_Nil [simp]: "run self [] = self"
  by (simp add: run_def)

lemma run_Cons [simp]: "run self (ev # evs) = run (deliver self ev) evs"
  by (simp add: run_def)

lemma run_snoc [simp]: "run self (evs @ [ev]) = deliver (run self evs) ev"
  by (simp add: run_def)

lemma deliver_stopped: "\<not> connected self \<Longrightarrow> deliver self ev = self"
  by (simp add: deliver_def)

lemma run_stopped: "\<not> connected self \<Longrightarrow> run self evs = self"
  by (induction evs) (simp_all add: deliver_stopped)

lemma call_accepted:
  "inaxes ev = Some (pts_axes self) \<Longrightarrow>
   xs (call self ev) = xs self @ [xdata ev]
   \<and> ys (call self ev) = ys self @ [ydata ev]
   \<and> npoints (call self ev) = npoints self
   \<and> pts_axes (call self ev) = pts_axes self
   \<and> connected (call self ev) = (connected self \<and> int (length (xs self)) + 1 < npoints self)"
  by (auto simp: call_def Let_def)

lemma call_dropped: "inaxes ev \<noteq> Some (pts_axes self) \<Longrightarrow> call self ev = self"
  by (simp add: call_def)

lemma deliver_npoints [simp]: "npoints (deliver self ev) = npoints self"
  by (simp add: deliver_def call_def Let_def)

lemma run_npoints [simp]: "npoints (run self evs) = npoints self"
  by (induction evs arbitrary: self) simp_all

lemma init_fields [simp]:
  "npoints (init a vx0 vx1 n) = n" "xs (init a vx0 vx1 n) = []" "connected (init a vx0 vx1 n)"
  by (simp_all add: init_def)

lemma listening_invariant:
  "connected (run (init a vx0 vx1 n) evs) \<longrightarrow>
     xs (run (init a vx0 vx1 n) evs) = [] \<or> int (length (xs (run (init a vx0 vx1 n) evs))) < n"
proof (induction evs rule: rev_induct)
  case Nil
  show ?case by simp
next
  case (snoc ev evs)
  let ?s = "run (init a vx0 vx1 n) evs"
  show ?case
  proof (cases "connected ?s \<and> inaxes ev = Some (pts_axes ?s)")
    case True
    then show ?thesis
      using call_accepted [of ev ?s] by (simp add: deliver_def)
  next
    case False
    then show ?thesis
      using snoc by (auto simp: deliver_def call_dropped)
  qed
qed

lemma count_bounded:
  "1 \<le> n \<Longrightarrow> int (length (xs (run (init a vx0 vx1 n) evs))) \<le> n"
proof (induction evs rule: rev_induct)
  case Nil
  then show ?case by simp
next
  case (snoc ev evs)
  let ?s = "run (init a vx0 vx1 n) evs"
  show ?case
  proof (cases "connected ?s \<and> inaxes ev = Some (pts_axes ?s)")
    case True
    then have "int (length (xs ?s)) < n"
      using listening_invariant [of a vx0 vx1 n evs] snoc.prems by auto
    then show ?thesis
      using True call_accepted [of ev ?s] by (simp add: deliver_def)
  next
    case False
    then show ?thesis
      using snoc by (auto simp: deliver_def call_dropped)
  qed
qed

text \<open>
  Claim C9. For every target count \<open>n\<close> and every sequence of click events delivered to a
  fresh picker: an accepted click after which the count has reached \<open>n\<close> leaves the
  handler disconnected; a disconnected handler is changed by no further event; and for
  \<open>n \<ge> 1\<close> the number of recorded points never exceeds \<open>n\<close>, the handler being
  disconnected, and the state final, as soon as it equals \<open>n\<close>.
\<close>
theorem stops_listening:
  assumes "self = run (init a vx0 vx1 n) evs"
  shows "(connected self \<and> inaxes ev = Some (pts_axes self) \<and> n \<le> int (length (xs (deliver self ev)))
            \<longrightarrow> \<not> connected (deliver self ev))
       \<and> (\<not> connected self \<longrightarrow> run self later = self)
       \<and> (1 \<le> n \<longrightarrow> int (length (xs self)) \<le> n
            \<and> (int (length (xs self)) = n \<longrightarrow> \<not> connected self \<and> run self later = self))"
proof (intro conjI impI)
  assume "connected self \<and> inaxes ev = Some (pts_axes self) \<and> n \<le> int (length (xs (deliver self ev)))"
  then have h: "connected self" "inaxes ev = Some (pts_axes self)"
    "n \<le> int (length (xs (deliver self ev)))"
    by simp_all
  have d: "deliver self ev = call self ev"
    using h(1) by (simp add: deliver_def)
  have "npoints self = n"
    unfolding assms by simp
  then show "\<not> connected (deliver self ev)"
    using call_accepted [OF h(2)] h(3) unfolding d by simp
next
  assume "\<not> connected self"
  then show "run self later = self"
    by (rule run_stopped)
next
  assume "1 \<le> n"
  then show "int (length (xs self)) \<le> n"
    unfolding assms by (rule count_bounded)
next
  assume n: "1 \<le> n" and full: "int (length (xs self)) = n"
  show stopped: "\<not> connected self"
    using listening_invariant [of a vx0 vx1 n evs] n full unfolding assms by auto
  show "run self later = self"
    using stopped by (rule run_stopped)
qed

theorem stops_listening_witness:
  "length (xs (run (init 7 0 100 2)
      [\<lparr>inaxes = Some 7, xdata = 1, ydata = 2\<rparr>, \<lparr>inaxes = None, xdata = 0, ydata = 0\<rparr>,
       \<lparr>inaxes = Some 7, xdata = 3, ydata = 4\<rparr>])) = 2
   \<and> \<not> connected (run (init 7 0 100 2)
      [\<lparr>inaxes = Some 7, xdata = 1, ydata = 2\<rparr>, \<lparr>inaxes = None, xdata = 0, ydata = 0\<rparr>,
       \<lparr>inaxes = Some 7, xdata = 3, ydata = 4\<rparr>])
   \<and> run (run (init 7 0 100 2)
      [\<lparr>inaxes = Some 7, xdata = 1, ydata = 2\<rparr>, \<lparr>inaxes = None, xdata = 0, ydata = 0\<rparr>,
       \<lparr>inaxes = Some 7, xdata = 3, ydata = 4\<rparr>]) [\<lparr>inaxes = Some 7, xdata = 5, ydata = 6\<rparr>]
     = run (init 7 0 100 2)
      [\<lparr>inaxes = Some 7, xdata = 1, ydata = 2\<rparr>, \<lparr>inaxes = None, xdata = 0, ydata = 0\<rparr>,
       \<lparr>inaxes = Some 7, xdata = 3, ydata = 4\<rparr>]"
proof -
  let ?evs = "[\<lparr>inaxes = Some 7, xdata = 1, ydata = 2\<rparr>, \<lparr>inaxes = None, xdata = 0, ydata = 0\<rparr>,
       \<lparr>inaxes = Some 7, xdata = 3, ydata = 4\<rparr>]"
  let ?s = "run (init 7 0 100 2) ?evs"
  have len: "length (xs ?s) = 2"
    by (simp add: init_def deliver_def call_def Let_def)
  have "(1::int) \<le> 2" and "int (length (xs ?s)) = 2"
    using len by simp_all
  with stops_listening [of ?s 7 0 100 2 ?evs "\<lparr>inaxes = Some 7, xdata = 5, ydata = 6\<rparr>" "[\<lparr>inaxes = Some 7, xdata = 5, ydata = 6\<rparr>]"]
  have "\<not> connected ?s \<and> run ?s [\<lparr>inaxes = Some 7, xdata = 5, ydata = 6\<rparr>] = ?s"
    by blast
  with len show ?thesis
    by blast
qed

text \<open>
  Claim C10. A click whose \<^verbatim>\<open>inaxes\<close> is not the axes of the plotted line leaves the whole
  state as it was: the handler returns the state it was given, and so does the canvas
  delivering the event.
\<close>
theorem out_of_axes_click_dropped:
  "inaxes ev \<noteq> Some (pts_axes self) \<Longrightarrow> call self ev = self \<and> deliver self ev = self"
  by (simp add: call_def deliver_def)

theorem out_of_axes_click_dropped_witness:
  "call (init 7 0 100 2) \<lparr>inaxes = None, xdata = 0, ydata = 0\<rparr> = init 7 0 100 2
   \<and> call (init 7 0 100 2) \<lparr>inaxes = Some 8, xdata = 1, ydata = 1\<rparr> = init 7 0 100 2"
  using out_of_axes_click_dropped [of "\<lparr>inaxes = None, xdata = 0, ydata = 0\<rparr>" "init 7 0 100 2"]
    out_of_axes_click_dropped [of "\<lparr>inaxes = Some 8, xdata = 1, ydata = 1\<rparr>" "init 7 0 100 2"]
  by (simp add: init_def)

end
